theory Spec2Isabelle
  imports Main "HOL-Library.AList"
begin

section \<open>Identifiers, sides and the clock\<close>

text \<open>
  The server of \<^verbatim>\<open>src/index.js\<close> keeps two registries, \<^verbatim>\<open>rooms\<close> and \<^verbatim>\<open>games\<close>, both
  JavaScript \<^verbatim>\<open>Map\<close>s keyed by the room id. A \<^verbatim>\<open>Map\<close> iterates in insertion order, and the
  disconnect handler depends on that order, so both registries are association lists:
  \<^verbatim>\<open>get\<close> is \<open>map_of\<close>, \<^verbatim>\<open>set\<close> is \<open>AList.update\<close> (replace in place, or append), and
  \<^verbatim>\<open>delete\<close> is \<open>AList.delete\<close>.

  Every \<^verbatim>\<open>new Date().toISOString()\<close> is a reading of the clock, passed to the handler as a
  number of milliseconds; a handler that reads the clock more than once is given one reading. \<^verbatim>\<open>moveCount\<close> is a JavaScript number counting moves from 0; it is
  exact for every integer below \<open>2^53\<close> and is modelled as a natural number.
\<close>

type_synonym socket_id = string
type_synonym room_id = string
type_synonym timestamp = int

datatype color = White | Black

datatype turn_code = W | B

definition color_of_turn :: "turn_code \<Rightarrow> color" where
  \<comment> \<open>\<^verbatim>\<open>game.chess.turn() === 'w' ? 'white' : 'black'\<close>\<close>
  "color_of_turn t = (if t = W then White else Black)"

definition winner_of_turn :: "turn_code \<Rightarrow> color" where
  \<comment> \<open>\<^verbatim>\<open>game.chess.turn() === 'w' ? 'black' : 'white'\<close>\<close>
  "winner_of_turn t = (if t = W then Black else White)"

fun color_name :: "color \<Rightarrow> string" where
  "color_name White = ''white''"
| "color_name Black = ''black''"

fun opponent :: "color \<Rightarrow> color" where
  "opponent White = Black"
| "opponent Black = White"

section \<open>The rules engine\<close>

text \<open>
  The chess rules come from the library \<^verbatim>\<open>chess.js\<close>, which is not part of the repository.
  The handlers are therefore parameterised by the operations they call on a \<^verbatim>\<open>Chess\<close> object.
  \<^verbatim>\<open>move\<close> has three outcomes, because the handler provides for all three: a move object
  and the new position, a falsy result (the test \<^verbatim>\<open>if (!result)\<close>), or an exception
  (caught by the handler's \<^verbatim>\<open>catch\<close>). A rejected move leaves the position as it was.
\<close>

datatype ('r, 'b) applied = Moved 'r 'b | Null_result | Thrown

record ('b, 'm, 'r) engine =
  chess_new :: 'b
  chess_turn :: "'b \<Rightarrow> turn_code"
  chess_move :: "'b \<Rightarrow> 'm \<Rightarrow> ('r, 'b) applied"
  chess_fen :: "'b \<Rightarrow> string"
  chess_isGameOver :: "'b \<Rightarrow> bool"
  chess_isCheckmate :: "'b \<Rightarrow> bool"
  chess_isDraw :: "'b \<Rightarrow> bool"
  chess_reset :: "'b \<Rightarrow> 'b"

definition resets_to_initial :: "('b, 'm, 'r) engine \<Rightarrow> bool" where
  \<comment> \<open>\<^verbatim>\<open>reset()\<close> puts any position back to the one \<^verbatim>\<open>new Chess()\<close> starts from\<close>
  "resets_to_initial E \<longleftrightarrow> (\<forall>b. chess_reset E b = chess_new E)"

definition starts_white :: "('b, 'm, 'r) engine \<Rightarrow> bool" where
  \<comment> \<open>a new and a reset position have White to move\<close>
  "starts_white E \<longleftrightarrow>
     chess_turn E (chess_new E) = W \<and> (\<forall>b. chess_turn E (chess_reset E b) = W)"

section \<open>Rooms, game sessions and the server state\<close>

record player =
  socketId :: socket_id
  username :: string
  color :: color
  ready :: bool

datatype room_status = Waiting | Ready

record room =
  roomId :: room_id
  players :: "player list"
  status :: room_status
  created :: timestamp
  lastActivity :: timestamp

datatype game_state = Game_waiting | Game_active | Game_finished

record 'r history_entry =
  move :: 'r
  fen :: string
  timestamp :: timestamp
  player :: string

record ('b, 'r) game =
  chess :: 'b
  gameState :: game_state
  currentTurn :: color
  moveCount :: nat
  history :: "'r history_entry list"

text \<open>
  Besides the two registries the state holds what the handlers read and write on the
  transport: \<^verbatim>\<open>socket.data.username\<close> of every connection, and the broadcast groups that
  \<^verbatim>\<open>socket.join(roomId)\<close> fills.
\<close>

record ('b, 'r) state =
  rooms :: "(room_id \<times> room) list"
  games :: "(room_id \<times> ('b, 'r) game) list"
  usernames :: "(socket_id \<times> string) list"
  joined :: "(room_id \<times> socket_id) list"

definition init_state :: "('b, 'r) state" where
  "init_state = \<lparr>rooms = [], games = [], usernames = [], joined = []\<rparr>"

section \<open>Messages\<close>

datatype game_over = Checkmate color string | Draw string

datatype ('m, 'r) payload =
    Error_msg string
  | Created room_id
  | Ack_error string
  | Room_snapshot room
  | Opponent_joined room
  | Move_relay 'm
  | Game_update string color nat "game_over option" "'r option"
  | Game_reset_signal
  | Player_disconnected player nat

datatype target =
    To_socket socket_id
  | Reply socket_id
  | To_others room_id socket_id
  | To_room room_id

type_synonym ('m, 'r) emission = "target \<times> ('m, 'r) payload"

fun recipients :: "(room_id \<times> socket_id) list \<Rightarrow> target \<Rightarrow> socket_id list" where
  "recipients J (To_socket s) = [s]"
| "recipients J (Reply s) = [s]"
| "recipients J (To_others r s) = map snd (filter (\<lambda>(r', s'). r' = r \<and> s' \<noteq> s) J)"
| "recipients J (To_room r) = map snd (filter (\<lambda>(r', s'). r' = r) J)"

definition socket_join :: "room_id \<Rightarrow> socket_id \<Rightarrow> (room_id \<times> socket_id) list \<Rightarrow> (room_id \<times> socket_id) list" where
  "socket_join r s J = (if (r, s) \<in> set J then J else J @ [(r, s)])"

section \<open>Utility functions\<close>

definition toUpperCase :: "char \<Rightarrow> char" where
  \<comment> \<open>on the characters of a UUID (hexadecimal digits and hyphens) only letters change\<close>
  "toUpperCase c =
     (case map_of (zip ''abcdefghijklmnopqrstuvwxyz'' ''ABCDEFGHIJKLMNOPQRSTUVWXYZ'') c of
        Some u \<Rightarrow> u
      | None \<Rightarrow> c)"

definition generateRoomId :: "string \<Rightarrow> room_id" where
  \<comment> \<open>\<^verbatim>\<open>uuidV4().substring(0, 8).toUpperCase()\<close>, the UUID being an input\<close>
  "generateRoomId uuid = map toUpperCase (take 8 uuid)"

definition cleanupRoom :: "room_id \<Rightarrow> ('b, 'r) state \<Rightarrow> ('b, 'r) state" where
  "cleanupRoom rid st =
     (case map_of (rooms st) rid of
        Some rm \<Rightarrow>
          if length (players rm) = 0
          then st\<lparr>rooms := AList.delete rid (rooms st), games := AList.delete rid (games st)\<rparr>
          else st
      | None \<Rightarrow> st)"

definition display_name :: "('b, 'r) state \<Rightarrow> socket_id \<Rightarrow> string" where
  \<comment> \<open>\<^verbatim>\<open>socket.data.username || 'Anonymous'\<close>\<close>
  "display_name st sid =
     (case map_of (usernames st) sid of
        None \<Rightarrow> ''Anonymous''
      | Some u \<Rightarrow> if u = [] then ''Anonymous'' else u)"

fun findIndex :: "('a \<Rightarrow> bool) \<Rightarrow> 'a list \<Rightarrow> nat option" where
  "findIndex P [] = None"
| "findIndex P (x # xs) =
     (if P x then Some 0 else map_option Suc (findIndex P xs))"

section \<open>The event handlers\<close>

definition on_username :: "socket_id \<Rightarrow> string \<Rightarrow> ('b, 'r) state \<Rightarrow> ('b, 'r) state" where
  "on_username sid u st = st\<lparr>usernames := AList.update sid u (usernames st)\<rparr>"

definition on_createRoom ::
  "('b, 'm, 'r) engine \<Rightarrow> timestamp \<Rightarrow> string \<Rightarrow> socket_id \<Rightarrow> ('b, 'r) state
     \<Rightarrow> ('b, 'r) state \<times> ('m, 'r) emission list" where
  "on_createRoom E now uuid sid st =
     (let rid = generateRoomId uuid;
          rm = \<lparr>roomId = rid,
                players = [\<lparr>socketId = sid, username = display_name st sid,
                            color = White, ready = False\<rparr>],
                status = Waiting, created = now, lastActivity = now\<rparr>;
          g = \<lparr>chess = chess_new E, gameState = Game_waiting, currentTurn = White,
               moveCount = 0, history = []\<rparr>
      in (st\<lparr>games := AList.update rid g (games st),
              rooms := AList.update rid rm (rooms st),
              joined := socket_join rid sid (joined st)\<rparr>,
          [(Reply sid, Created rid)]))"

definition on_joinRoom ::
  "timestamp \<Rightarrow> socket_id \<Rightarrow> room_id \<Rightarrow> ('b, 'r) state
     \<Rightarrow> ('b, 'r) state \<times> ('m, 'r) emission list" where
  "on_joinRoom now sid rid st =
     (case map_of (rooms st) rid of
        None \<Rightarrow> (st, [(Reply sid, Ack_error ''Room not found'')])
      | Some rm \<Rightarrow>
          if length (players rm) \<ge> 2
          then (st, [(Reply sid, Ack_error ''Room is full'')])
          else if list_ex (\<lambda>p. socketId p = sid) (players rm)
          then (st, [(Reply sid, Ack_error ''Already in this room'')])
          else
            (let newPlayer = \<lparr>socketId = sid, username = display_name st sid,
                              color = Black, ready = False\<rparr>;
                 rm' = rm\<lparr>players := players rm @ [newPlayer], status := Ready,
                          lastActivity := now\<rparr>;
                 games' = (case map_of (games st) rid of
                             Some g \<Rightarrow> AList.update rid (g\<lparr>gameState := Game_active\<rparr>) (games st)
                           | None \<Rightarrow> games st)
             in (st\<lparr>rooms := AList.update rid rm' (rooms st),
                     games := games',
                     joined := socket_join rid sid (joined st)\<rparr>,
                 [(Reply sid, Room_snapshot rm'), (To_others rid sid, Opponent_joined rm')])))"

definition gameOverData :: "('b, 'm, 'r) engine \<Rightarrow> 'b \<Rightarrow> game_over option" where
  "gameOverData E b =
     (if chess_isGameOver E b
      then if chess_isCheckmate E b
           then (let winner = winner_of_turn (chess_turn E b)
                 in Some (Checkmate winner (''Checkmate! '' @ color_name winner @ '' wins!'')))
           else if chess_isDraw E b then Some (Draw ''Game ended in a draw'')
           else None
      else None)"

definition accept_move ::
  "('b, 'm, 'r) engine \<Rightarrow> timestamp \<Rightarrow> socket_id \<Rightarrow> room_id \<Rightarrow> 'm \<Rightarrow> room \<Rightarrow> ('b, 'r) game
     \<Rightarrow> player \<Rightarrow> 'r \<Rightarrow> 'b \<Rightarrow> ('b, 'r) state \<Rightarrow> ('b, 'r) state \<times> ('m, 'r) emission list" where
  "accept_move E now sid rid m rm g p r b st =
     (let g' = g\<lparr>chess := b,
                moveCount := moveCount g + 1,
                currentTurn := color_of_turn (chess_turn E b),
                history := history g @
                  [\<lparr>move = r, fen = chess_fen E b, timestamp = now, player = username p\<rparr>],
                gameState := (if chess_isGameOver E b then Game_finished else gameState g)\<rparr>;
          rm' = rm\<lparr>lastActivity := now\<rparr>
      in (st\<lparr>rooms := AList.update rid rm' (rooms st),
              games := AList.update rid g' (games st)\<rparr>,
          [(To_others rid sid, Move_relay m),
           (To_room rid,
            Game_update (chess_fen E b) (currentTurn g') (moveCount g') (gameOverData E b)
              (Some r))]))"

definition on_move ::
  "('b, 'm, 'r) engine \<Rightarrow> timestamp \<Rightarrow> socket_id \<Rightarrow> room_id \<Rightarrow> 'm \<Rightarrow> ('b, 'r) state
     \<Rightarrow> ('b, 'r) state \<times> ('m, 'r) emission list" where
  "on_move E now sid rid m st =
     (case map_of (rooms st) rid of
        None \<Rightarrow> (st, [(To_socket sid, Error_msg ''Room or game not found'')])
      | Some rm \<Rightarrow>
          (case map_of (games st) rid of
             None \<Rightarrow> (st, [(To_socket sid, Error_msg ''Room or game not found'')])
           | Some g \<Rightarrow>
               (case find (\<lambda>p. socketId p = sid) (players rm) of
                  None \<Rightarrow> (st, [(To_socket sid, Error_msg ''Player not found in room'')])
                | Some p \<Rightarrow>
                    if color p \<noteq> color_of_turn (chess_turn E (chess g))
                    then (st, [(To_socket sid, Error_msg ''Not your turn'')])
                    else
                      (case chess_move E (chess g) m of
                         Thrown \<Rightarrow> (st, [(To_socket sid, Error_msg ''Failed to process move'')])
                       | Null_result \<Rightarrow> (st, [(To_socket sid, Error_msg ''Invalid move'')])
                       | Moved r b \<Rightarrow> accept_move E now sid rid m rm g p r b st))))"

definition on_gameReset ::
  "('b, 'm, 'r) engine \<Rightarrow> timestamp \<Rightarrow> room_id \<Rightarrow> ('b, 'r) state
     \<Rightarrow> ('b, 'r) state \<times> ('m, 'r) emission list" where
  "on_gameReset E now rid st =
     (case map_of (rooms st) rid of
        None \<Rightarrow> (st, [])
      | Some rm \<Rightarrow>
          (case map_of (games st) rid of
             None \<Rightarrow> (st, [])
           | Some g \<Rightarrow>
               (let g' = g\<lparr>chess := chess_reset E (chess g), gameState := Game_active,
                          currentTurn := White, moveCount := 0, history := []\<rparr>;
                    rm' = rm\<lparr>lastActivity := now\<rparr>
                in (st\<lparr>rooms := AList.update rid rm' (rooms st),
                        games := AList.update rid g' (games st)\<rparr>,
                    [(To_room rid, Game_reset_signal),
                     (To_room rid, Game_update (chess_fen E (chess g')) White 0 None None)]))))"

fun first_room_of :: "socket_id \<Rightarrow> (room_id \<times> room) list \<Rightarrow> (room_id \<times> room \<times> nat) option" where
  "first_room_of sid [] = None"
| "first_room_of sid ((rid, rm) # rest) =
     (case findIndex (\<lambda>p. socketId p = sid) (players rm) of
        Some i \<Rightarrow> Some (rid, rm, i)
      | None \<Rightarrow> first_room_of sid rest)"

text \<open>
  When the \<^verbatim>\<open>disconnect\<close> handler runs, the transport has already taken the connection
  out of its broadcast groups. The handler then walks \<^verbatim>\<open>rooms.entries()\<close> and stops, by its
  \<^verbatim>\<open>break\<close>, at the first room that holds the connection.
\<close>

definition on_disconnect ::
  "timestamp \<Rightarrow> socket_id \<Rightarrow> ('b, 'r) state \<Rightarrow> ('b, 'r) state \<times> ('m, 'r) emission list" where
  "on_disconnect now sid st0 =
     (let st = st0\<lparr>joined := filter (\<lambda>(r, s). s \<noteq> sid) (joined st0)\<rparr>
      in case first_room_of sid (rooms st) of
           None \<Rightarrow> (st, [])
         | Some (rid, rm, i) \<Rightarrow>
             (let disconnectedPlayer = players rm ! i;
                  rm' = rm\<lparr>players := take i (players rm) @ drop (Suc i) (players rm),
                           lastActivity := now\<rparr>;
                  st1 = st\<lparr>rooms := AList.update rid rm' (rooms st)\<rparr>;
                  out = (if length (players rm') > 0
                         then [(To_others rid sid,
                                Player_disconnected disconnectedPlayer (length (players rm')))]
                         else [])
              in (cleanupRoom rid st1, out)))"

definition maxInactiveTime :: int where
  "maxInactiveTime = 30 * 60 * 1000"

definition sweep_inactive :: "timestamp \<Rightarrow> ('b, 'r) state \<Rightarrow> ('b, 'r) state" where
  "sweep_inactive now st =
     fold (\<lambda>(rid, rm) s.
             if now - lastActivity rm > maxInactiveTime
             then s\<lparr>rooms := AList.delete rid (rooms s), games := AList.delete rid (games s)\<rparr>
             else s)
          (rooms st) st"

section \<open>Runs of the server\<close>

datatype 'm event =
    Username socket_id string
  | Create_room timestamp string socket_id
  | Join_room timestamp socket_id room_id
  | Submit_move timestamp socket_id room_id 'm
  | Game_reset timestamp room_id
  | Disconnect timestamp socket_id
  | Sweep timestamp

fun handle ::
  "('b, 'm, 'r) engine \<Rightarrow> 'm event \<Rightarrow> ('b, 'r) state \<Rightarrow> ('b, 'r) state \<times> ('m, 'r) emission list" where
  "handle E (Username sid u) st = (on_username sid u st, [])"
| "handle E (Create_room now uuid sid) st = on_createRoom E now uuid sid st"
| "handle E (Join_room now sid rid) st = on_joinRoom now sid rid st"
| "handle E (Submit_move now sid rid m) st = on_move E now sid rid m st"
| "handle E (Game_reset now rid) st = on_gameReset E now rid st"
| "handle E (Disconnect now sid) st = on_disconnect now sid st"
| "handle E (Sweep now) st = (sweep_inactive now st, [])"

fun run :: "('b, 'm, 'r) engine \<Rightarrow> 'm event list \<Rightarrow> ('b, 'r) state \<Rightarrow> ('b, 'r) state" where
  "run E [] st = st"
| "run E (ev # evs) st = run E evs (fst (handle E ev st))"

section \<open>A small rules engine for concrete runs\<close>

text \<open>
  To run the handlers on concrete inputs, a stand-in for the chess library: a position is
  the side to move and whether the game is still open; move \<open>0\<close> is illegal, \<open>1\<close> is an
  ordinary move, \<open>2\<close> mates, \<open>3\<close> draws, and any other number makes the engine throw.
  No move is legal once the game is over.
\<close>

datatype toy_phase = Open | Mated | Drawn

type_synonym toy_board = "turn_code \<times> toy_phase"

fun flip :: "turn_code \<Rightarrow> turn_code" where
  "flip W = B"
| "flip B = W"

definition toy_move :: "toy_board \<Rightarrow> nat \<Rightarrow> (nat, toy_board) applied" where
  "toy_move b m =
     (if m > 3 then Thrown
      else if snd b \<noteq> Open \<or> m = 0 then Null_result
      else Moved m (flip (fst b), (if m = 2 then Mated else if m = 3 then Drawn else Open)))"

definition toy_engine :: "(toy_board, nat, nat) engine" where
  "toy_engine =
     \<lparr>chess_new = (W, Open),
      chess_turn = fst,
      chess_move = toy_move,
      chess_fen = (\<lambda>b. if fst b = W then ''w'' else ''b''),
      chess_isGameOver = (\<lambda>b. snd b \<noteq> Open),
      chess_isCheckmate = (\<lambda>b. snd b = Mated),
      chess_isDraw = (\<lambda>b. snd b = Drawn),
      chess_reset = (\<lambda>b. (W, Open))\<rparr>"

text \<open>
  A sample session on that engine: connection \<open>s1\<close> opens room \<open>AB12CD34\<close>, connection
  \<open>s2\<close> names itself and joins.
\<close>

definition alice :: player where
  "alice = \<lparr>socketId = ''s1'', username = ''Anonymous'', color = White, ready = False\<rparr>"

definition bob :: player where
  "bob = \<lparr>socketId = ''s2'', username = ''bob'', color = Black, ready = False\<rparr>"

definition demo_room :: room where
  "demo_room = \<lparr>roomId = ''AB12CD34'', players = [alice, bob], status = Ready,
                 created = 10, lastActivity = 20\<rparr>"

definition demo_game :: "(toy_board, nat) game" where
  "demo_game = \<lparr>chess = (W, Open), gameState = Game_active, currentTurn = White,
                 moveCount = 0, history = []\<rparr>"

definition demo_state :: "(toy_board, nat) state" where
  "demo_state = \<lparr>rooms = [(''AB12CD34'', demo_room)], games = [(''AB12CD34'', demo_game)],
                  usernames = [(''s2'', ''bob'')],
                  joined = [(''AB12CD34'', ''s1''), (''AB12CD34'', ''s2'')]\<rparr>"

definition demo_events :: "nat event list" where
  "demo_events = [Create_room 10 ''ab12cd34-5e6f'' ''s1'', Username ''s2'' ''bob'',
                  Join_room 20 ''s2'' ''AB12CD34'']"

text \<open>
  The same room before \<open>s2\<close> joined, and after \<open>s1\<close> has played move \<open>1\<close>.
\<close>

definition lobby_room :: room where
  "lobby_room = \<lparr>roomId = ''AB12CD34'', players = [alice], status = Waiting,
                  created = 10, lastActivity = 10\<rparr>"

definition lobby_game :: "(toy_board, nat) game" where
  "lobby_game = \<lparr>chess = (W, Open), gameState = Game_waiting, currentTurn = White,
                  moveCount = 0, history = []\<rparr>"

definition lobby_state :: "(toy_board, nat) state" where
  "lobby_state = \<lparr>rooms = [(''AB12CD34'', lobby_room)], games = [(''AB12CD34'', lobby_game)],
                   usernames = [], joined = [(''AB12CD34'', ''s1'')]\<rparr>"

definition played_room :: room where
  "played_room = demo_room\<lparr>lastActivity := 30\<rparr>"

definition played_game :: "(toy_board, nat) game" where
  "played_game = \<lparr>chess = (B, Open), gameState = Game_active, currentTurn = Black,
                   moveCount = 1,
                   history = [\<lparr>move = 1, fen = ''b'', timestamp = 30, player = ''Anonymous''\<rparr>]\<rparr>"

definition played_state :: "(toy_board, nat) state" where
  "played_state = demo_state\<lparr>rooms := [(''AB12CD34'', played_room)],
                              games := [(''AB12CD34'', played_game)]\<rparr>"


definition two_rooms_events :: "nat event list" where
  "two_rooms_events = [Create_room 10 ''ab12cd34-5e6f'' ''s1'',
                       Create_room 20 ''ef56ab78-9c0d'' ''s1'']"

section \<open>Invariants of the registries\<close>

definition turn_mirrored :: "('b, 'm, 'r) engine \<Rightarrow> ('b, 'r) state \<Rightarrow> bool" where
  \<comment> \<open>the field \<^verbatim>\<open>currentTurn\<close> of every session names the side the engine has to move\<close>
  "turn_mirrored E st \<longleftrightarrow>
     (\<forall>rid g. map_of (games st) rid = Some g \<longrightarrow>
        currentTurn g = color_of_turn (chess_turn E (chess g)))"

definition rooms_inhabited :: "('b, 'r) state \<Rightarrow> bool" where
  \<comment> \<open>no room of the registry has an empty player list\<close>
  "rooms_inhabited st \<longleftrightarrow> (\<forall>rid rm. map_of (rooms st) rid = Some rm \<longrightarrow> players rm \<noteq> [])"

fun departed :: "'m event list \<Rightarrow> socket_id list" where
  \<comment> \<open>the connections that have disconnected in the course of a run\<close>
  "departed [] = []"
| "departed (Disconnect now sid # evs) = sid # departed evs"
| "departed (ev # evs) = departed evs"

definition listed_joined :: "socket_id set \<Rightarrow> ('b, 'r) state \<Rightarrow> bool" where
  \<comment> \<open>every listed player, the connections in \<open>D\<close> apart, is in the broadcast group of its room\<close>
  "listed_joined D st \<longleftrightarrow>
     (\<forall>(rid, rm) \<in> set (rooms st). \<forall>q \<in> set (players rm).
        socketId q \<notin> D \<longrightarrow> (rid, socketId q) \<in> set (joined st))"

section \<open>Facts about the sample session\<close>

lemmas demo_defs = alice_def bob_def demo_room_def demo_game_def demo_state_def demo_events_def

lemmas lobby_defs = alice_def lobby_room_def lobby_game_def lobby_state_def

lemmas played_defs = played_room_def played_game_def played_state_def

lemmas handler_defs = on_createRoom_def on_joinRoom_def on_username_def on_move_def accept_move_def
  on_gameReset_def on_disconnect_def cleanupRoom_def gameOverData_def display_name_def
  socket_join_def generateRoomId_def toUpperCase_def init_state_def Let_def

lemmas toy_defs = toy_engine_def toy_move_def color_of_turn_def winner_of_turn_def

lemma demo_state_run: "run toy_engine demo_events init_state = demo_state"
  by (simp add: demo_defs on_createRoom_def on_joinRoom_def on_username_def display_name_def
      socket_join_def generateRoomId_def toUpperCase_def init_state_def toy_engine_def Let_def)

lemma lobby_state_run:
  "run toy_engine [Create_room 10 ''ab12cd34-5e6f'' ''s1''] init_state = lobby_state"
  by (simp add: lobby_defs handler_defs toy_engine_def)

lemma played_state_run:
  "run toy_engine (demo_events @ [Submit_move 30 ''s1'' ''AB12CD34'' 1]) init_state
     = played_state"
  by (simp add: demo_defs played_defs handler_defs toy_defs)

lemma demo_room_lookup: "map_of (rooms demo_state) ''AB12CD34'' = Some demo_room"
  by (simp add: demo_state_def)

lemma demo_game_lookup: "map_of (games demo_state) ''AB12CD34'' = Some demo_game"
  by (simp add: demo_state_def)

lemma demo_find_alice: "find (\<lambda>p. socketId p = ''s1'') (players demo_room) = Some alice"
  by (simp add: demo_room_def alice_def)

lemma demo_find_bob: "find (\<lambda>p. socketId p = ''s2'') (players demo_room) = Some bob"
  by (simp add: demo_room_def alice_def bob_def)

lemma demo_alice_to_move:
  "color alice = color_of_turn (chess_turn toy_engine (chess demo_game))"
  by (simp add: alice_def demo_game_def toy_defs)

lemma starts_white_toy: "starts_white toy_engine"
  by (simp add: starts_white_def toy_engine_def)

section \<open>Rejected moves\<close>

text \<open>
  C2. A move submitted by a participant of the room whose colour is not the colour the
  rules engine has to move is answered with the error \<open>Not your turn\<close>, sent to the
  submitter, and the whole server state (and so the move count, the current turn, the
  position and the history of the session) is as before.
\<close>

theorem out_of_turn_rejected:
  assumes "map_of (rooms st) rid = Some rm" and "map_of (games st) rid = Some g"
    and "find (\<lambda>p. socketId p = sid) (players rm) = Some p"
    and "color p \<noteq> color_of_turn (chess_turn E (chess g))"
  shows "on_move E now sid rid m st = (st, [(To_socket sid, Error_msg ''Not your turn'')])"
  using assms by (simp add: on_move_def)

theorem out_of_turn_rejected_witness:
  "on_move toy_engine 30 ''s2'' ''AB12CD34'' (1::nat) demo_state
     = (demo_state, [(To_socket ''s2'', Error_msg ''Not your turn'')])"
proof -
  have "color bob \<noteq> color_of_turn (chess_turn toy_engine (chess demo_game))"
    by (simp add: bob_def demo_game_def toy_defs)
  with demo_room_lookup demo_game_lookup demo_find_bob show ?thesis
    by (rule out_of_turn_rejected)
qed

text \<open>
  C4. The move handler tests, in this order, that the room and the session exist, that
  the requester is a player of the room, that it is the requester's turn, and that the
  engine accepts the move. The first test that fails decides the answer whatever the later
  ones would say: one error message, different for each test, addressed to the requesting
  connection alone, with the state unchanged. An exception of the engine is caught and
  answered in the same way, so the handler always returns. An accepted move emits no error.
\<close>

theorem move_failures_in_order:
  "(map_of (rooms st) rid = None \<or> map_of (games st) rid = None \<longrightarrow>
      on_move E now sid rid m st = (st, [(To_socket sid, Error_msg ''Room or game not found'')]))
   \<and> (map_of (rooms st) rid = Some rm \<and> map_of (games st) rid = Some g \<longrightarrow>
        (find (\<lambda>p. socketId p = sid) (players rm) = None \<longrightarrow>
           on_move E now sid rid m st
             = (st, [(To_socket sid, Error_msg ''Player not found in room'')]))
      \<and> (find (\<lambda>p. socketId p = sid) (players rm) = Some p \<longrightarrow>
           (color p \<noteq> color_of_turn (chess_turn E (chess g)) \<longrightarrow>
              on_move E now sid rid m st = (st, [(To_socket sid, Error_msg ''Not your turn'')]))
         \<and> (color p = color_of_turn (chess_turn E (chess g)) \<longrightarrow>
              (chess_move E (chess g) m = Null_result \<longrightarrow>
                 on_move E now sid rid m st
                   = (st, [(To_socket sid, Error_msg ''Invalid move'')]))
            \<and> (chess_move E (chess g) m = Thrown \<longrightarrow>
                 on_move E now sid rid m st
                   = (st, [(To_socket sid, Error_msg ''Failed to process move'')]))
            \<and> (\<forall>r b. chess_move E (chess g) m = Moved r b \<longrightarrow>
                 (\<forall>t e. (t, Error_msg e) \<notin> set (snd (on_move E now sid rid m st)))))))
   \<and> recipients J (To_socket sid) = [sid]
   \<and> distinct [''Room or game not found'', ''Player not found in room'', ''Not your turn'',
        ''Invalid move'', ''Failed to process move'']"
  by (auto simp: on_move_def accept_move_def Let_def split: option.splits)

theorem move_failures_in_order_witness:
  "on_move toy_engine 30 ''s1'' ''ZZ'' (1::nat) demo_state
     = (demo_state, [(To_socket ''s1'', Error_msg ''Room or game not found'')])
   \<and> on_move toy_engine 30 ''s3'' ''AB12CD34'' (1::nat) demo_state
     = (demo_state, [(To_socket ''s3'', Error_msg ''Player not found in room'')])
   \<and> on_move toy_engine 30 ''s2'' ''AB12CD34'' (1::nat) demo_state
     = (demo_state, [(To_socket ''s2'', Error_msg ''Not your turn'')])
   \<and> on_move toy_engine 30 ''s1'' ''AB12CD34'' (0::nat) demo_state
     = (demo_state, [(To_socket ''s1'', Error_msg ''Invalid move'')])
   \<and> on_move toy_engine 30 ''s1'' ''AB12CD34'' (7::nat) demo_state
     = (demo_state, [(To_socket ''s1'', Error_msg ''Failed to process move'')])
   \<and> (\<forall>t e. (t, Error_msg e) \<notin> set (snd (on_move toy_engine 30 ''s1'' ''AB12CD34'' (1::nat) demo_state)))"
proof -
  have absent: "map_of (rooms demo_state) ''ZZ'' = None"
    by (simp add: demo_state_def)
  have stranger: "find (\<lambda>p. socketId p = ''s3'') (players demo_room) = None"
    by (simp add: demo_defs)
  have bob_waits: "color bob \<noteq> color_of_turn (chess_turn toy_engine (chess demo_game))"
    by (simp add: bob_def demo_game_def toy_defs)
  have illegal: "chess_move toy_engine (chess demo_game) 0 = Null_result"
    by (simp add: demo_game_def toy_defs)
  have throws: "chess_move toy_engine (chess demo_game) 7 = Thrown"
    by (simp add: demo_game_def toy_defs)
  have legal: "chess_move toy_engine (chess demo_game) 1 = Moved 1 (B, Open)"
    by (simp add: demo_game_def toy_defs)
  show ?thesis
    using move_failures_in_order [where st = demo_state and rid = "''ZZ''" and E = toy_engine
        and now = 30 and sid = "''s1''" and m = 1]
      move_failures_in_order [where st = demo_state and rid = "''AB12CD34''" and E = toy_engine
        and now = 30 and sid = "''s3''" and m = 1 and rm = demo_room and g = demo_game]
      move_failures_in_order [where st = demo_state and rid = "''AB12CD34''" and E = toy_engine
        and now = 30 and sid = "''s2''" and m = 1 and rm = demo_room and g = demo_game
        and p = bob]
      move_failures_in_order [where st = demo_state and rid = "''AB12CD34''" and E = toy_engine
        and now = 30 and sid = "''s1''" and m = 0 and rm = demo_room and g = demo_game
        and p = alice]
      move_failures_in_order [where st = demo_state and rid = "''AB12CD34''" and E = toy_engine
        and now = 30 and sid = "''s1''" and m = 7 and rm = demo_room and g = demo_game
        and p = alice]
      move_failures_in_order [where st = demo_state and rid = "''AB12CD34''" and E = toy_engine
        and now = 30 and sid = "''s1''" and m = 1 and rm = demo_room and g = demo_game
        and p = alice]
      absent stranger bob_waits illegal throws legal
      demo_room_lookup demo_game_lookup demo_find_alice demo_find_bob demo_alice_to_move
    by simp
qed

section \<open>The current turn mirrors the engine\<close>

lemma mirrored_init: "turn_mirrored E init_state"
  by (simp add: turn_mirrored_def init_state_def)

lemma mirrored_createRoom:
  "starts_white E \<Longrightarrow> turn_mirrored E st
     \<Longrightarrow> turn_mirrored E (fst (on_createRoom E now uuid sid st))"
  by (auto simp: turn_mirrored_def on_createRoom_def Let_def update_conv' starts_white_def
      color_of_turn_def split: if_splits)

lemma mirrored_joinRoom:
  "turn_mirrored E st \<Longrightarrow> turn_mirrored E (fst (on_joinRoom now sid rid st))"
  by (auto simp: turn_mirrored_def on_joinRoom_def Let_def update_conv'
      split: option.splits if_splits)

lemma mirrored_move:
  "turn_mirrored E st \<Longrightarrow> turn_mirrored E (fst (on_move E now sid rid m st))"
  by (auto simp: turn_mirrored_def on_move_def accept_move_def Let_def update_conv'
      split: option.splits if_splits applied.splits)

lemma mirrored_gameReset:
  "starts_white E \<Longrightarrow> turn_mirrored E st
     \<Longrightarrow> turn_mirrored E (fst (on_gameReset E now rid st))"
  by (auto simp: turn_mirrored_def on_gameReset_def Let_def update_conv' starts_white_def
      color_of_turn_def split: option.splits if_splits)

lemma mirrored_cleanupRoom:
  "turn_mirrored E st \<Longrightarrow> turn_mirrored E (cleanupRoom rid st)"
  by (auto simp: turn_mirrored_def cleanupRoom_def delete_conv' split: option.splits if_splits)

lemma mirrored_disconnect:
  assumes "turn_mirrored E st"
  shows "turn_mirrored E (fst (on_disconnect now sid st))"
proof -
  have "\<And>J R. turn_mirrored E (st\<lparr>joined := J, rooms := R\<rparr>)"
    and "\<And>J. turn_mirrored E (st\<lparr>joined := J\<rparr>)"
    using assms by (simp_all add: turn_mirrored_def)
  then show ?thesis
    by (auto simp: on_disconnect_def Let_def split: option.splits intro!: mirrored_cleanupRoom)
qed

lemma mirrored_sweep:
  "turn_mirrored E s \<Longrightarrow>
   turn_mirrored E
     (fold (\<lambda>(rid, rm) s.
              if now - lastActivity rm > maxInactiveTime
              then s\<lparr>rooms := AList.delete rid (rooms s), games := AList.delete rid (games s)\<rparr>
              else s) xs s)"
proof (induction xs arbitrary: s)
  case Nil
  then show ?case by simp
next
  case (Cons x xs)
  obtain rid rm where x: "x = (rid, rm)"
    by (cases x)
  have "turn_mirrored E
          (s\<lparr>rooms := AList.delete rid (rooms s), games := AList.delete rid (games s)\<rparr>)"
    using Cons.prems by (auto simp: turn_mirrored_def delete_conv' split: if_splits)
  with Cons show ?case
    by (simp add: x)
qed

lemma mirrored_handle:
  assumes "starts_white E" and "turn_mirrored E st"
  shows "turn_mirrored E (fst (handle E ev st))"
proof (cases ev)
  case (Username sid u)
  with assms(2) show ?thesis
    by (simp add: turn_mirrored_def on_username_def)
next
  case (Sweep now)
  with assms(2) show ?thesis
    by (simp add: sweep_inactive_def mirrored_sweep)
qed (simp_all add: assms mirrored_createRoom mirrored_joinRoom mirrored_move
      mirrored_gameReset mirrored_disconnect)

lemma mirrored_run:
  "starts_white E \<Longrightarrow> turn_mirrored E st \<Longrightarrow> turn_mirrored E (run E evs st)"
  by (induction evs arbitrary: st) (simp_all add: mirrored_handle)

lemma opponent_color_of_turn:
  "t' \<noteq> t \<Longrightarrow> color_of_turn t' = opponent (color_of_turn t)"
  by (cases t; cases t') (simp_all add: color_of_turn_def)

lemma opponent_winner_of_turn: "winner_of_turn t = opponent (color_of_turn t)"
  by (simp add: winner_of_turn_def color_of_turn_def)

section \<open>Accepted moves\<close>

text \<open>
  C1. In every state the server reaches from its start, with an engine whose new and
  reset positions have White to move, a move that passes the four checks of the move
  handler, and by which the engine passes the turn to the other side, leaves the
  session of the room with \<open>moveCount\<close> one greater than before and with \<open>currentTurn\<close>
  the opposite of what it was.
\<close>

theorem accepted_move_counts_and_flips:
  assumes "starts_white E"
    and "st = run E evs init_state"
    and "map_of (rooms st) rid = Some rm" and "map_of (games st) rid = Some g"
    and "find (\<lambda>p. socketId p = sid) (players rm) = Some p"
    and "color p = color_of_turn (chess_turn E (chess g))"
    and "chess_move E (chess g) m = Moved r b"
    and "chess_turn E b \<noteq> chess_turn E (chess g)"
  shows "\<exists>g'. map_of (games (fst (on_move E now sid rid m st))) rid = Some g'
           \<and> moveCount g' = moveCount g + 1
           \<and> currentTurn g' = opponent (currentTurn g)"
proof -
  have "turn_mirrored E st"
    using assms(1,2) by (simp add: mirrored_run mirrored_init)
  with assms(4) have cur: "currentTurn g = color_of_turn (chess_turn E (chess g))"
    by (simp add: turn_mirrored_def)
  have "on_move E now sid rid m st = accept_move E now sid rid m rm g p r b st"
    using assms by (simp add: on_move_def)
  then show ?thesis
    using cur opponent_color_of_turn [OF assms(8)]
    by (simp add: accept_move_def Let_def update_conv')
qed

theorem accepted_move_counts_and_flips_witness:
  "\<exists>g'. map_of (games (fst (on_move toy_engine 30 ''s1'' ''AB12CD34'' (1::nat) demo_state)))
            ''AB12CD34'' = Some g'
        \<and> moveCount g' = 1 \<and> currentTurn g' = Black"
proof -
  have legal: "chess_move toy_engine (chess demo_game) 1 = Moved 1 (B, Open)"
    by (simp add: demo_game_def toy_defs)
  have passes: "chess_turn toy_engine (B, Open) \<noteq> chess_turn toy_engine (chess demo_game)"
    by (simp add: demo_game_def toy_defs)
  show ?thesis
    using accepted_move_counts_and_flips [OF starts_white_toy demo_state_run [symmetric]
        demo_room_lookup demo_game_lookup demo_find_alice demo_alice_to_move legal passes,
        of 30]
    by (simp add: demo_game_def)
qed

text \<open>
  C3. When an accepted move leaves a position that the engine reports as checkmate (and
  so as game over), the session is \<open>finished\<close> and the game update sent to the room
  names as winner the side that is not the new current turn; the engine having passed
  the turn, that is the side of the player who moved.
\<close>

theorem checkmate_finishes_game:
  assumes "map_of (rooms st) rid = Some rm" and "map_of (games st) rid = Some g"
    and "find (\<lambda>p. socketId p = sid) (players rm) = Some p"
    and "color p = color_of_turn (chess_turn E (chess g))"
    and "chess_move E (chess g) m = Moved r b"
    and "chess_isCheckmate E b" and "chess_isGameOver E b"
    and "on_move E now sid rid m st = (st', out)"
  shows "\<exists>g'. map_of (games st') rid = Some g'
           \<and> gameState g' = Game_finished
           \<and> out = [(To_others rid sid, Move_relay m),
                    (To_room rid,
                     Game_update (chess_fen E b) (currentTurn g') (moveCount g')
                       (Some (Checkmate (opponent (currentTurn g'))
                          (''Checkmate! '' @ color_name (opponent (currentTurn g')) @ '' wins!'')))
                       (Some r))]
           \<and> opponent (currentTurn g') \<noteq> currentTurn g'
           \<and> (chess_turn E b \<noteq> chess_turn E (chess g) \<longrightarrow> opponent (currentTurn g') = color p)"
proof -
  have res: "(st', out) = accept_move E now sid rid m rm g p r b st"
    using assms by (simp add: on_move_def)
  have differs: "opponent c \<noteq> c" for c
    by (cases c) simp_all
  have involutive: "opponent (opponent c) = c" for c
    by (cases c) simp_all
  have mover: "chess_turn E b \<noteq> chess_turn E (chess g)
                 \<Longrightarrow> opponent (color_of_turn (chess_turn E b)) = color p"
    using assms(4) by (simp add: opponent_color_of_turn involutive)
  from res have st': "st' = fst (accept_move E now sid rid m rm g p r b st)"
    and out: "out = snd (accept_move E now sid rid m rm g p r b st)"
    by (simp_all flip: res)
  show ?thesis
    unfolding st' out using assms(6,7) mover
    by (simp add: accept_move_def gameOverData_def Let_def update_conv'
        opponent_winner_of_turn differs)
qed

theorem checkmate_finishes_game_witness:
  "\<exists>g'. map_of (games (fst (on_move toy_engine 30 ''s1'' ''AB12CD34'' (2::nat) demo_state)))
            ''AB12CD34'' = Some g'
        \<and> gameState g' = Game_finished
        \<and> snd (on_move toy_engine 30 ''s1'' ''AB12CD34'' (2::nat) demo_state)
            = [(To_others ''AB12CD34'' ''s1'', Move_relay 2),
               (To_room ''AB12CD34'',
                Game_update ''b'' (currentTurn g') (moveCount g')
                  (Some (Checkmate White ''Checkmate! white wins!'')) (Some 2))]"
proof -
  have mates: "chess_move toy_engine (chess demo_game) 2 = Moved 2 (B, Mated)"
    by (simp add: demo_game_def toy_defs)
  have mate: "chess_isCheckmate toy_engine (B, Mated)"
    and over: "chess_isGameOver toy_engine (B, Mated)"
    by (simp_all add: toy_defs)
  have passes: "chess_turn toy_engine (B, Mated) \<noteq> chess_turn toy_engine (chess demo_game)"
    by (simp add: demo_game_def toy_defs)
  have fen: "chess_fen toy_engine (B, Mated) = ''b''"
    by (simp add: toy_defs)
  show ?thesis
    using checkmate_finishes_game [OF demo_room_lookup demo_game_lookup demo_find_alice
        demo_alice_to_move mates mate over surjective_pairing, of 30] passes fen
    by (auto simp: alice_def)
qed

text \<open>
  C10. The move handler looks neither at the state of the game nor at the number of
  players. In a room that holds only its creator, still \<open>waiting\<close>, a move of the
  creator that the engine accepts on the creator's turn is applied: move count, current
  turn, position and history change and both broadcasts are emitted. The emissions are
  those of a room with a second player and an \<open>active\<close> session in the same position,
  and the two sessions end up equal except for a \<open>gameState\<close> that the move left alone.
\<close>

theorem sole_player_move_accepted:
  assumes "map_of (rooms st) rid = Some rm" and "map_of (games st) rid = Some g"
    and "players rm = [p]" and "socketId p = sid"
    and "status rm = Waiting" and "gameState g = Game_waiting"
    and "color p = color_of_turn (chess_turn E (chess g))"
    and "chess_move E (chess g) m = Moved r b"
    and "map_of (rooms st2) rid = Some rm2" and "players rm2 = [p, q]"
    and "status rm2 = Ready"
    and "map_of (games st2) rid = Some (g\<lparr>gameState := Game_active\<rparr>)"
  shows "\<exists>g'. map_of (games (fst (on_move E now sid rid m st))) rid = Some g'
           \<and> chess g' = b
           \<and> moveCount g' = moveCount g + 1
           \<and> currentTurn g' = color_of_turn (chess_turn E b)
           \<and> history g' = history g @
                [\<lparr>move = r, fen = chess_fen E b, timestamp = now, player = username p\<rparr>]
           \<and> gameState g' = (if chess_isGameOver E b then Game_finished else Game_waiting)
           \<and> snd (on_move E now sid rid m st)
               = [(To_others rid sid, Move_relay m),
                  (To_room rid,
                   Game_update (chess_fen E b) (currentTurn g') (moveCount g')
                     (gameOverData E b) (Some r))]
           \<and> snd (on_move E now sid rid m st2) = snd (on_move E now sid rid m st)
           \<and> map_of (games (fst (on_move E now sid rid m st2))) rid
               = Some (g'\<lparr>gameState := (if chess_isGameOver E b then Game_finished
                                          else Game_active)\<rparr>)"
proof -
  have one: "on_move E now sid rid m st = accept_move E now sid rid m rm g p r b st"
    using assms(1-4,7,8) by (simp add: on_move_def)
  have two: "on_move E now sid rid m st2
               = accept_move E now sid rid m rm2 (g\<lparr>gameState := Game_active\<rparr>) p r b st2"
    using assms(4,7-10,12) by (simp add: on_move_def)
  show ?thesis
    unfolding one two using assms(6)
    by (simp add: accept_move_def Let_def update_conv')
qed

theorem sole_player_move_accepted_witness:
  "\<exists>g'. map_of (games (fst (on_move toy_engine 30 ''s1'' ''AB12CD34'' (1::nat) lobby_state)))
            ''AB12CD34'' = Some g'
        \<and> chess g' = (B, Open) \<and> moveCount g' = 1 \<and> currentTurn g' = Black
        \<and> history g' = [\<lparr>move = 1, fen = ''b'', timestamp = 30, player = ''Anonymous''\<rparr>]
        \<and> gameState g' = Game_waiting
        \<and> snd (on_move toy_engine 30 ''s1'' ''AB12CD34'' (1::nat) lobby_state)
            = [(To_others ''AB12CD34'' ''s1'', Move_relay 1),
               (To_room ''AB12CD34'', Game_update ''b'' Black 1 None (Some 1))]
        \<and> snd (on_move toy_engine 30 ''s1'' ''AB12CD34'' (1::nat) demo_state)
            = snd (on_move toy_engine 30 ''s1'' ''AB12CD34'' (1::nat) lobby_state)"
proof -
  have room: "map_of (rooms lobby_state) ''AB12CD34'' = Some lobby_room"
    and game: "map_of (games lobby_state) ''AB12CD34'' = Some lobby_game"
    by (simp_all add: lobby_state_def)
  have sole: "players lobby_room = [alice]" and who: "socketId alice = ''s1''"
    and waiting: "status lobby_room = Waiting" "gameState lobby_game = Game_waiting"
    by (simp_all add: lobby_defs)
  have turn: "color alice = color_of_turn (chess_turn toy_engine (chess lobby_game))"
    by (simp add: lobby_defs toy_defs)
  have legal: "chess_move toy_engine (chess lobby_game) 1 = Moved 1 (B, Open)"
    by (simp add: lobby_defs toy_defs)
  have pair: "players demo_room = [alice, bob]" and ready: "status demo_room = Ready"
    by (simp_all add: demo_defs)
  have active: "map_of (games demo_state) ''AB12CD34''
                  = Some (lobby_game\<lparr>gameState := Game_active\<rparr>)"
    by (simp add: demo_defs lobby_defs)
  have "chess_fen toy_engine (B, Open) = ''b''"
    and "color_of_turn (chess_turn toy_engine (B, Open)) = Black"
    and "gameOverData toy_engine (B, Open) = None"
    and "\<not> chess_isGameOver toy_engine (B, Open)"
    and "moveCount lobby_game = 0" and "history lobby_game = []"
    and "username alice = ''Anonymous''"
    by (simp_all add: lobby_defs toy_defs gameOverData_def)
  then show ?thesis
    using sole_player_move_accepted [OF room game sole who waiting turn legal
        demo_room_lookup pair ready active, of 30]
    by auto
qed

section \<open>Resetting a game\<close>

lemma resets_to_initial_toy: "resets_to_initial toy_engine"
  by (simp add: resets_to_initial_def toy_engine_def)

text \<open>
  C6. With an engine whose reset restores the initial position: when the room and its
  session exist, a reset leaves the session with the initial position, game state
  \<open>active\<close>, current turn White, move count 0 and an empty history. A second reset in a
  row changes nothing: the registry of sessions is the same, and so is the registry of
  rooms but for the time of last activity that the second reset stamps on the room (at the
  same reading of the clock, the state is the same altogether). When the room does not
  exist, the state is unchanged and nothing is emitted.
\<close>

theorem gameReset_restores_start:
  "(resets_to_initial E \<and> map_of (rooms st) rid = Some rm \<and> map_of (games st) rid = Some g
      \<and> on_gameReset E now rid st = (st', out) \<longrightarrow>
        map_of (games st') rid =
          Some \<lparr>chess = chess_new E, gameState = Game_active, currentTurn = White,
                moveCount = 0, history = []\<rparr>
      \<and> map_of (rooms st') rid = Some (rm\<lparr>lastActivity := now\<rparr>)
      \<and> games (fst (on_gameReset E now' rid st' :: ('b, 'r) state \<times> ('m, 'r) emission list))
          = games st'
      \<and> fst (on_gameReset E now' rid st' :: ('b, 'r) state \<times> ('m, 'r) emission list)
          = st'\<lparr>rooms := AList.update rid (rm\<lparr>lastActivity := now'\<rparr>) (rooms st')\<rparr>
      \<and> fst (on_gameReset E now rid st' :: ('b, 'r) state \<times> ('m, 'r) emission list) = st')
   \<and> (map_of (rooms st) rid = None \<longrightarrow> on_gameReset E now rid st = (st, []))"
proof -
  have absent: "on_gameReset E now rid st = (st, [])" if "map_of (rooms st) rid = None"
    using that by (simp add: on_gameReset_def)
  have present: "map_of (games st') rid =
          Some \<lparr>chess = chess_new E, gameState = Game_active, currentTurn = White,
                moveCount = 0, history = []\<rparr>
      \<and> map_of (rooms st') rid = Some (rm\<lparr>lastActivity := now\<rparr>)
      \<and> games (fst (on_gameReset E now' rid st' :: ('b, 'r) state \<times> ('m, 'r) emission list))
          = games st'
      \<and> fst (on_gameReset E now' rid st' :: ('b, 'r) state \<times> ('m, 'r) emission list)
          = st'\<lparr>rooms := AList.update rid (rm\<lparr>lastActivity := now'\<rparr>) (rooms st')\<rparr>
      \<and> fst (on_gameReset E now rid st' :: ('b, 'r) state \<times> ('m, 'r) emission list) = st'"
    if contract: "resets_to_initial E"
      and room: "map_of (rooms st) rid = Some rm" and game: "map_of (games st) rid = Some g"
      and res: "on_gameReset E now rid st = (st', out)"
  proof -
    have initial: "chess_reset E b = chess_new E" for b
      using contract by (simp add: resets_to_initial_def)
    let ?fresh = "\<lparr>chess = chess_new E, gameState = Game_active, currentTurn = White,
                    moveCount = 0, history = []\<rparr> :: ('b, 'r) game"
    have fresh: "h\<lparr>chess := chess_new E, gameState := Game_active, currentTurn := White,
                   moveCount := 0, history := []\<rparr> = ?fresh" for h :: "('b, 'r) game"
      by (cases h) simp
    have st': "st' = st\<lparr>rooms := AList.update rid (rm\<lparr>lastActivity := now\<rparr>) (rooms st),
                        games := AList.update rid ?fresh (games st)\<rparr>"
      using room game res by (simp add: on_gameReset_def Let_def initial fresh)
    have room': "map_of (rooms st') rid = Some (rm\<lparr>lastActivity := now\<rparr>)"
      and game': "map_of (games st') rid = Some ?fresh"
      by (simp_all add: st' update_conv')
    have again: "fst (on_gameReset E t rid st' :: ('b, 'r) state \<times> ('m, 'r) emission list)
                   = st'\<lparr>rooms := AList.update rid (rm\<lparr>lastActivity := t\<rparr>) (rooms st')\<rparr>"
      for t
      using room' game' by (simp add: on_gameReset_def Let_def initial fresh) (simp add: st')
    have same: "st'\<lparr>rooms := AList.update rid (rm\<lparr>lastActivity := now\<rparr>) (rooms st')\<rparr> = st'"
      by (simp add: st')
    show ?thesis
      using room' game' again [of now'] again [of now] same by simp
  qed
  from absent present show ?thesis
    by blast
qed

theorem gameReset_restores_start_witness:
  "map_of (games (fst (on_gameReset toy_engine 40 ''AB12CD34'' played_state
       :: (toy_board, nat) state \<times> (nat, nat) emission list))) ''AB12CD34'' = Some demo_game
   \<and> map_of (rooms (fst (on_gameReset toy_engine 40 ''AB12CD34'' played_state
       :: (toy_board, nat) state \<times> (nat, nat) emission list))) ''AB12CD34''
       = Some (demo_room\<lparr>lastActivity := 40\<rparr>)
   \<and> games (fst (on_gameReset toy_engine 50 ''AB12CD34''
          (fst (on_gameReset toy_engine 40 ''AB12CD34'' played_state
             :: (toy_board, nat) state \<times> (nat, nat) emission list))
        :: (toy_board, nat) state \<times> (nat, nat) emission list))
       = games (fst (on_gameReset toy_engine 40 ''AB12CD34'' played_state
             :: (toy_board, nat) state \<times> (nat, nat) emission list))
   \<and> fst (on_gameReset toy_engine 40 ''AB12CD34''
          (fst (on_gameReset toy_engine 40 ''AB12CD34'' played_state
             :: (toy_board, nat) state \<times> (nat, nat) emission list))
        :: (toy_board, nat) state \<times> (nat, nat) emission list)
       = fst (on_gameReset toy_engine 40 ''AB12CD34'' played_state
             :: (toy_board, nat) state \<times> (nat, nat) emission list)
   \<and> (on_gameReset toy_engine 40 ''ZZ'' played_state
        :: (toy_board, nat) state \<times> (nat, nat) emission list) = (played_state, [])"
proof -
  have room: "map_of (rooms played_state) ''AB12CD34'' = Some played_room"
    and game: "map_of (games played_state) ''AB12CD34'' = Some played_game"
    and absent: "map_of (rooms played_state) ''ZZ'' = None"
    by (simp_all add: played_defs demo_defs)
  have fresh: "\<lparr>chess = chess_new toy_engine, gameState = Game_active, currentTurn = White,
                 moveCount = 0, history = []\<rparr> = demo_game"
    by (simp add: demo_defs toy_defs)
  have stamped: "played_room\<lparr>lastActivity := 40\<rparr> = demo_room\<lparr>lastActivity := 40\<rparr>"
    by (simp add: played_defs)
  show ?thesis
    using gameReset_restores_start [where E = toy_engine and st = played_state
        and rid = "''AB12CD34''" and rm = played_room and g = played_game and now = 40
        and now' = 50
        and st' = "fst (on_gameReset toy_engine 40 ''AB12CD34'' played_state
                     :: (toy_board, nat) state \<times> (nat, nat) emission list)"
        and out = "snd (on_gameReset toy_engine 40 ''AB12CD34'' played_state
                     :: (toy_board, nat) state \<times> (nat, nat) emission list)"]
      gameReset_restores_start [where E = toy_engine and st = played_state and rid = "''ZZ''"
        and now = 40]
      resets_to_initial_toy room game absent fresh stamped
    by simp
qed

section \<open>Opening and joining a room\<close>

text \<open>
  C8, as the claim states it: a generated id that is already in the registry is generated
  again, so that no existing room is overwritten. The handler generates one id and stores
  under it: here connection \<open>s3\<close> draws the id of the room of \<open>s1\<close> and \<open>s2\<close>, and
  that room is replaced by a room holding \<open>s3\<close> alone.
\<close>

theorem createRoom_collision_counterexample:
  "generateRoomId ''ab12cd34-77aa'' = ''AB12CD34''
   \<and> map_of (rooms demo_state) ''AB12CD34'' = Some demo_room
   \<and> snd (on_createRoom toy_engine 40 ''ab12cd34-77aa'' ''s3'' demo_state
        :: (toy_board, nat) state \<times> (nat, nat) emission list)
       = [(Reply ''s3'', Created ''AB12CD34'')]
   \<and> map_of (rooms (fst (on_createRoom toy_engine 40 ''ab12cd34-77aa'' ''s3'' demo_state
        :: (toy_board, nat) state \<times> (nat, nat) emission list))) ''AB12CD34''
       = Some \<lparr>roomId = ''AB12CD34'',
               players = [\<lparr>socketId = ''s3'', username = ''Anonymous'', color = White,
                           ready = False\<rparr>],
               status = Waiting, created = 40, lastActivity = 40\<rparr>
   \<and> map_of (rooms (fst (on_createRoom toy_engine 40 ''ab12cd34-77aa'' ''s3'' demo_state
        :: (toy_board, nat) state \<times> (nat, nat) emission list))) ''AB12CD34''
       \<noteq> map_of (rooms demo_state) ''AB12CD34''"
  by (simp add: on_createRoom_def demo_defs generateRoomId_def toUpperCase_def Let_def
      display_name_def)

text \<open>
  C8, amended. Opening a room generates a single id, without looking it up in the
  registry and without a retry, answers with that id and stores under it a room holding
  the requester as White and a new session. The rooms and sessions under every other id
  are as before; so when the generated id is in neither registry, every room and session
  that existed is still there unchanged.
\<close>

theorem createRoom_one_id:
  assumes "on_createRoom E now uuid sid st = (st', out)" and "rid = generateRoomId uuid"
  shows "out = [(Reply sid, Created rid)]
    \<and> map_of (rooms st') rid =
        Some \<lparr>roomId = rid,
              players = [\<lparr>socketId = sid, username = display_name st sid, color = White,
                          ready = False\<rparr>],
              status = Waiting, created = now, lastActivity = now\<rparr>
    \<and> map_of (games st') rid =
        Some \<lparr>chess = chess_new E, gameState = Game_waiting, currentTurn = White,
              moveCount = 0, history = []\<rparr>
    \<and> (\<forall>rid'. rid' \<noteq> rid \<longrightarrow>
          map_of (rooms st') rid' = map_of (rooms st) rid'
        \<and> map_of (games st') rid' = map_of (games st) rid')
    \<and> (map_of (rooms st) rid = None \<and> map_of (games st) rid = None \<longrightarrow>
          (\<forall>rid' rm. map_of (rooms st) rid' = Some rm \<longrightarrow> map_of (rooms st') rid' = Some rm)
        \<and> (\<forall>rid' g. map_of (games st) rid' = Some g \<longrightarrow> map_of (games st') rid' = Some g))"
proof -
  from assms have stored:
    "rooms st' = AList.update rid
        \<lparr>roomId = rid,
         players = [\<lparr>socketId = sid, username = display_name st sid, color = White,
                     ready = False\<rparr>],
         status = Waiting, created = now, lastActivity = now\<rparr> (rooms st)"
    "games st' = AList.update rid
        \<lparr>chess = chess_new E, gameState = Game_waiting, currentTurn = White,
         moveCount = 0, history = []\<rparr> (games st)"
    "out = [(Reply sid, Created rid)]"
    by (auto simp: on_createRoom_def Let_def)
  show ?thesis
    unfolding stored by (auto simp: update_conv')
qed

theorem createRoom_one_id_witness:
  "snd (on_createRoom toy_engine 40 ''ef56ab78-9c0d'' ''s3'' demo_state
        :: (toy_board, nat) state \<times> (nat, nat) emission list)
     = [(Reply ''s3'', Created ''EF56AB78'')]
   \<and> map_of (rooms (fst (on_createRoom toy_engine 40 ''ef56ab78-9c0d'' ''s3'' demo_state
        :: (toy_board, nat) state \<times> (nat, nat) emission list))) ''AB12CD34'' = Some demo_room
   \<and> map_of (games (fst (on_createRoom toy_engine 40 ''ef56ab78-9c0d'' ''s3'' demo_state
        :: (toy_board, nat) state \<times> (nat, nat) emission list))) ''AB12CD34'' = Some demo_game"
proof -
  have rid: "''EF56AB78'' = generateRoomId ''ef56ab78-9c0d''"
    by (simp add: generateRoomId_def toUpperCase_def)
  have fresh: "map_of (rooms demo_state) ''EF56AB78'' = None"
    "map_of (games demo_state) ''EF56AB78'' = None"
    by (simp_all add: demo_state_def)
  show ?thesis
    using createRoom_one_id [OF surjective_pairing rid, of toy_engine 40 "''s3''" demo_state]
      fresh demo_room_lookup demo_game_lookup
    by simp
qed

text \<open>
  C9, as the claim states it: a join request from a connection that is already a player
  of the room is rejected as already joined, whether the room holds one or two players.
  With two players the handler answers that the room is full, because it tests the
  number of players first.
\<close>

theorem join_by_member_of_full_room_counterexample:
  "map_of (rooms demo_state) ''AB12CD34'' = Some demo_room
   \<and> map socketId (players demo_room) = [''s1'', ''s2'']
   \<and> (on_joinRoom 30 ''s1'' ''AB12CD34'' demo_state
        :: (toy_board, nat) state \<times> (nat, nat) emission list)
       = (demo_state, [(Reply ''s1'', Ack_error ''Room is full'')])
   \<and> snd (on_joinRoom 30 ''s1'' ''AB12CD34'' demo_state
        :: (toy_board, nat) state \<times> (nat, nat) emission list)
       \<noteq> [(Reply ''s1'', Ack_error ''Already in this room'')]"
  by (simp add: on_joinRoom_def demo_defs)

text \<open>
  C9, amended. A join request from a connection that is already a player of the named
  room changes nothing, and is answered \<open>Already in this room\<close> when the room holds fewer
  than two players and \<open>Room is full\<close> when it holds two.
\<close>

theorem join_by_member:
  assumes "map_of (rooms st) rid = Some rm"
    and "list_ex (\<lambda>p. socketId p = sid) (players rm)"
  shows "on_joinRoom now sid rid st =
           (st, [(Reply sid, Ack_error (if length (players rm) \<ge> 2 then ''Room is full''
                                        else ''Already in this room''))])"
  using assms by (simp add: on_joinRoom_def)

theorem join_by_member_witness:
  "(on_joinRoom 30 ''s1'' ''AB12CD34'' lobby_state
        :: (toy_board, nat) state \<times> (nat, nat) emission list)
       = (lobby_state, [(Reply ''s1'', Ack_error ''Already in this room'')])
   \<and> (on_joinRoom 30 ''s2'' ''AB12CD34'' demo_state
        :: (toy_board, nat) state \<times> (nat, nat) emission list)
       = (demo_state, [(Reply ''s2'', Ack_error ''Room is full'')])"
proof -
  have room: "map_of (rooms lobby_state) ''AB12CD34'' = Some lobby_room"
    by (simp add: lobby_state_def)
  have creator: "list_ex (\<lambda>p. socketId p = ''s1'') (players lobby_room)"
    by (simp add: lobby_defs)
  have second: "list_ex (\<lambda>p. socketId p = ''s2'') (players demo_room)"
    by (simp add: demo_defs)
  have sizes: "length (players lobby_room) = 1" "length (players demo_room) = 2"
    by (simp_all add: lobby_room_def demo_room_def)
  show ?thesis
    using join_by_member [OF room creator, of 30]
      join_by_member [OF demo_room_lookup second, of 30] sizes
    by simp
qed

section \<open>Disconnecting\<close>

lemma findIndex_Some: "findIndex P xs = Some i \<Longrightarrow> i < length xs \<and> P (xs ! i)"
proof (induction xs arbitrary: i)
  case Nil
  then show ?case by simp
next
  case (Cons x xs)
  then show ?case
    by (cases "P x") auto
qed

lemma first_room_of_Some:
  "first_room_of sid rs = Some (rid, rm, i)
     \<Longrightarrow> (rid, rm) \<in> set rs \<and> findIndex (\<lambda>p. socketId p = sid) (players rm) = Some i"
proof (induction rs)
  case Nil
  then show ?case by simp
next
  case (Cons entry rs)
  obtain rid' rm' where entry: "entry = (rid', rm')"
    by (cases entry)
  from Cons show ?case
    by (cases "findIndex (\<lambda>p. socketId p = sid) (players rm')") (auto simp: entry)
qed

lemma inhabited_init: "rooms_inhabited init_state"
  by (simp add: rooms_inhabited_def init_state_def)

lemma inhabited_createRoom:
  "rooms_inhabited st \<Longrightarrow> rooms_inhabited (fst (on_createRoom E now uuid sid st))"
  by (auto simp: rooms_inhabited_def on_createRoom_def Let_def update_conv' split: if_splits)

lemma inhabited_joinRoom:
  "rooms_inhabited st \<Longrightarrow> rooms_inhabited (fst (on_joinRoom now sid rid st))"
  by (auto simp: rooms_inhabited_def on_joinRoom_def Let_def update_conv'
      split: option.splits if_splits)

lemma inhabited_move:
  "rooms_inhabited st \<Longrightarrow> rooms_inhabited (fst (on_move E now sid rid m st))"
  by (auto simp: rooms_inhabited_def on_move_def accept_move_def Let_def update_conv'
      split: option.splits if_splits applied.splits)

lemma inhabited_gameReset:
  "rooms_inhabited st \<Longrightarrow> rooms_inhabited (fst (on_gameReset E now rid st))"
  by (auto simp: rooms_inhabited_def on_gameReset_def Let_def update_conv'
      split: option.splits if_splits)

lemma inhabited_disconnect:
  assumes "rooms_inhabited st"
  shows "rooms_inhabited (fst (on_disconnect now sid st))"
proof (cases "first_room_of sid (rooms st)")
  case None
  with assms show ?thesis
    by (simp add: on_disconnect_def rooms_inhabited_def)
next
  case (Some found)
  obtain rid rm i where found: "found = (rid, rm, i)"
    by (cases found)
  show ?thesis
    using assms Some
    by (auto simp: found on_disconnect_def cleanupRoom_def rooms_inhabited_def Let_def
        update_conv' delete_conv' split: if_splits)
qed

lemma inhabited_sweep:
  "rooms_inhabited s \<Longrightarrow>
   rooms_inhabited
     (fold (\<lambda>(rid, rm) s.
              if now - lastActivity rm > maxInactiveTime
              then s\<lparr>rooms := AList.delete rid (rooms s), games := AList.delete rid (games s)\<rparr>
              else s) xs s)"
proof (induction xs arbitrary: s)
  case Nil
  then show ?case by simp
next
  case (Cons x xs)
  obtain rid rm where x: "x = (rid, rm)"
    by (cases x)
  have "rooms_inhabited
          (s\<lparr>rooms := AList.delete rid (rooms s), games := AList.delete rid (games s)\<rparr>)"
    using Cons.prems by (auto simp: rooms_inhabited_def delete_conv' split: if_splits)
  with Cons show ?case
    by (simp add: x)
qed

lemma inhabited_handle:
  assumes "rooms_inhabited st"
  shows "rooms_inhabited (fst (handle E ev st))"
proof (cases ev)
  case (Username sid u)
  with assms show ?thesis
    by (simp add: rooms_inhabited_def on_username_def)
next
  case (Sweep now)
  with assms show ?thesis
    by (simp add: sweep_inactive_def inhabited_sweep)
qed (simp_all add: assms inhabited_createRoom inhabited_joinRoom inhabited_move
      inhabited_gameReset inhabited_disconnect)

text \<open>
  No run of the server leaves a room without players in the registry.
\<close>

lemma inhabited_run: "rooms_inhabited st \<Longrightarrow> rooms_inhabited (run E evs st)"
  by (induction evs arbitrary: st) (simp_all add: inhabited_handle)

lemma inhabited_from_start: "rooms_inhabited (run E evs init_state)"
  by (simp add: inhabited_run inhabited_init)

text \<open>
  When the first room of the registry that holds the connection holds nobody else, the
  disconnect handler deletes that room and its session.
\<close>

lemma disconnect_sole_player_of_first_room:
  assumes "first_room_of sid (rooms st) = Some (rid, rm, i)" and "players rm = [p]"
  shows "map_of (rooms (fst (on_disconnect now sid st))) rid = None
       \<and> map_of (games (fst (on_disconnect now sid st))) rid = None"
proof -
  from first_room_of_Some [OF assms(1)] findIndex_Some assms(2) have "i = 0"
    by fastforce
  with assms show ?thesis
    by (simp add: on_disconnect_def cleanupRoom_def Let_def update_conv' delete_conv')
qed

text \<open>
  C7. Disconnecting the only player of a room is claimed to delete the room and its
  session. The handler's loop leaves at the first room that holds the connection, so a
  connection that opened two rooms is taken out of the older one only: after \<open>s1\<close>
  disconnects, room \<open>EF56AB78\<close> and its session are still in the registries, with the
  departed \<open>s1\<close> as the only player.
\<close>

theorem disconnect_keeps_later_room:
  "map_of (rooms (run toy_engine two_rooms_events init_state)) ''EF56AB78''
     = Some \<lparr>roomId = ''EF56AB78'', players = [alice], status = Waiting,
             created = 20, lastActivity = 20\<rparr>
   \<and> map_of (rooms (run toy_engine (two_rooms_events @ [Disconnect 30 ''s1'']) init_state))
       ''AB12CD34'' = None
   \<and> map_of (rooms (run toy_engine (two_rooms_events @ [Disconnect 30 ''s1'']) init_state))
       ''EF56AB78''
     = Some \<lparr>roomId = ''EF56AB78'', players = [alice], status = Waiting,
             created = 20, lastActivity = 20\<rparr>
   \<and> map_of (games (run toy_engine (two_rooms_events @ [Disconnect 30 ''s1'']) init_state))
       ''EF56AB78''
     = Some \<lparr>chess = (W, Open), gameState = Game_waiting, currentTurn = White,
             moveCount = 0, history = []\<rparr>
   \<and> joined (run toy_engine (two_rooms_events @ [Disconnect 30 ''s1'']) init_state) = []"
  by (simp add: two_rooms_events_def alice_def handler_defs toy_engine_def)

section \<open>Who receives the broadcasts of a move\<close>

text \<open>
  When a move is accepted, the handler emits, in this order, the submitted move to the
  room's broadcast group without the submitter, and to the whole group a game update that
  carries the position, the current turn and the move count of the session as it is stored
  after the move, the game-over information and the move made.
\<close>

lemma accepted_move_emissions:
  assumes "map_of (rooms st) rid = Some rm" and "map_of (games st) rid = Some g"
    and "find (\<lambda>p. socketId p = sid) (players rm) = Some p"
    and "color p = color_of_turn (chess_turn E (chess g))"
    and "chess_move E (chess g) m = Moved r b"
    and "on_move E now sid rid m st = (st', out)"
  shows "(\<exists>g'. map_of (games st') rid = Some g' \<and> chess g' = b
            \<and> moveCount g' = moveCount g + 1
            \<and> currentTurn g' = color_of_turn (chess_turn E b)
            \<and> out = [(To_others rid sid, Move_relay m),
                     (To_room rid,
                      Game_update (chess_fen E (chess g')) (currentTurn g') (moveCount g')
                        (gameOverData E (chess g')) (Some r))])
       \<and> map_of (rooms st') rid = Some (rm\<lparr>lastActivity := now\<rparr>)
       \<and> joined st' = joined st
       \<and> sid \<notin> set (recipients (joined st') (To_others rid sid))
       \<and> (\<forall>q \<in> set (players rm). (rid, socketId q) \<in> set (joined st') \<longrightarrow>
             (socketId q \<noteq> sid \<longrightarrow>
                socketId q \<in> set (recipients (joined st') (To_others rid sid)))
           \<and> socketId q \<in> set (recipients (joined st') (To_room rid)))"
proof -
  from assms have res: "st' = fst (accept_move E now sid rid m rm g p r b st)"
      "out = snd (accept_move E now sid rid m rm g p r b st)"
    by (simp_all add: on_move_def)
  have "\<And>s. (rid, s) \<in> set (joined st) \<Longrightarrow> s \<noteq> sid \<Longrightarrow>
          s \<in> set (recipients (joined st) (To_others rid sid))"
    by force
  moreover have "\<And>s. (rid, s) \<in> set (joined st) \<Longrightarrow>
          s \<in> set (recipients (joined st) (To_room rid))"
    by force
  moreover have "sid \<notin> set (recipients (joined st) (To_others rid sid))"
    by auto
  ultimately show ?thesis
    unfolding res by (simp add: accept_move_def Let_def update_conv')
qed


text \<open>
  In every run, a listed player is in the broadcast group of its room, unless its
  connection has disconnected.
\<close>

lemma in_set_updateD:
  "(k', v') \<in> set (AList.update k v al) \<Longrightarrow> (k', v') = (k, v) \<or> (k', v') \<in> set al"
  by (induction al) (auto split: if_splits)

lemma in_set_deleteD: "(k', v') \<in> set (AList.delete k al) \<Longrightarrow> (k', v') \<in> set al"
  by (simp add: AList.delete_eq)

lemma set_socket_join: "set (socket_join r s J) = insert (r, s) (set J)"
  by (auto simp: socket_join_def)

lemma listed_joinedD:
  "listed_joined D st \<Longrightarrow> (rid, rm) \<in> set (rooms st) \<Longrightarrow> q \<in> set (players rm)
     \<Longrightarrow> socketId q \<notin> D \<Longrightarrow> (rid, socketId q) \<in> set (joined st)"
  unfolding listed_joined_def by blast

lemma listed_init: "listed_joined D init_state"
  by (simp add: listed_joined_def init_state_def)

lemma listed_same:
  "listed_joined D st \<Longrightarrow> rooms st' = rooms st \<Longrightarrow> joined st' = joined st
     \<Longrightarrow> listed_joined D st'"
  by (simp add: listed_joined_def)

lemma listed_update:
  assumes inv: "listed_joined D st"
    and rooms': "rooms st' = AList.update rid rm' (rooms st)"
    and more: "set (joined st) \<subseteq> set (joined st')"
    and new: "\<And>q. q \<in> set (players rm') \<Longrightarrow> socketId q \<notin> D
                \<Longrightarrow> (rid, socketId q) \<in> set (joined st')"
  shows "listed_joined D st'"
  unfolding listed_joined_def
proof (intro ballI impI, clarify)
  fix r rm q
  assume entry: "(r, rm) \<in> set (rooms st')" and q: "q \<in> set (players rm)"
    and live: "socketId q \<notin> D"
  from entry rooms' have "(r, rm) = (rid, rm') \<or> (r, rm) \<in> set (rooms st)"
    by (auto dest: in_set_updateD)
  then show "(r, socketId q) \<in> set (joined st')"
  proof
    assume "(r, rm) = (rid, rm')"
    with q live new show ?thesis by simp
  next
    assume "(r, rm) \<in> set (rooms st)"
    from listed_joinedD [OF inv this q live] more show ?thesis
      by blast
  qed
qed

lemma listed_delete:
  assumes inv: "listed_joined D st"
    and rooms': "rooms st' = AList.delete rid (rooms st)"
    and same: "joined st' = joined st"
  shows "listed_joined D st'"
  unfolding listed_joined_def
proof (intro ballI impI, clarify)
  fix r rm q
  assume entry: "(r, rm) \<in> set (rooms st')" and q: "q \<in> set (players rm)"
    and live: "socketId q \<notin> D"
  from entry rooms' have "(r, rm) \<in> set (rooms st)"
    by (auto dest: in_set_deleteD)
  from listed_joinedD [OF inv this q live] same
  show "(r, socketId q) \<in> set (joined st')"
    by simp
qed

lemma listed_createRoom:
  assumes "listed_joined D st"
  shows "listed_joined D (fst (on_createRoom E now uuid sid st))"
  by (rule listed_update [OF assms, where rid = "generateRoomId uuid"])
     (auto simp: on_createRoom_def Let_def set_socket_join)


lemma joinRoom_cases:
  "fst (on_joinRoom now sid rid st) = st
   \<or> (\<exists>rm. map_of (rooms st) rid = Some rm
         \<and> rooms (fst (on_joinRoom now sid rid st))
             = AList.update rid
                 (rm\<lparr>players := players rm @
                        [\<lparr>socketId = sid, username = display_name st sid, color = Black,
                          ready = False\<rparr>],
                     status := Ready, lastActivity := now\<rparr>) (rooms st)
         \<and> joined (fst (on_joinRoom now sid rid st)) = socket_join rid sid (joined st))"
  by (auto simp: on_joinRoom_def Let_def split: option.splits)

lemma listed_joinRoom:
  assumes "listed_joined D st"
  shows "listed_joined D (fst (on_joinRoom now sid rid st))" (is "listed_joined D ?st'")
proof -
  let ?new = "\<lparr>socketId = sid, username = display_name st sid, color = Black, ready = False\<rparr>"
  have "?st' = st
   \<or> (\<exists>rm. map_of (rooms st) rid = Some rm
         \<and> rooms ?st'
             = AList.update rid
                 (rm\<lparr>players := players rm @ [?new], status := Ready, lastActivity := now\<rparr>)
                 (rooms st)
         \<and> joined ?st' = socket_join rid sid (joined st))"
    by (rule joinRoom_cases)
  then show ?thesis
  proof (elim disjE exE conjE)
    assume "?st' = st"
    with assms show ?thesis by simp
  next
    fix rm
    assume room: "map_of (rooms st) rid = Some rm"
      and rooms': "rooms ?st'
               = AList.update rid
                   (rm\<lparr>players := players rm @ [?new], status := Ready, lastActivity := now\<rparr>)
                   (rooms st)"
      and joined': "joined ?st' = socket_join rid sid (joined st)"
    from room have entry: "(rid, rm) \<in> set (rooms st)"
      by (rule map_of_SomeD)
    show ?thesis
    proof (rule listed_update [OF assms rooms'])
      show "set (joined st) \<subseteq> set (joined ?st')"
        by (auto simp: joined' set_socket_join)
    next
      fix q
      assume "q \<in> set (players (rm\<lparr>players := players rm @ [?new], status := Ready,
                                   lastActivity := now\<rparr>))"
        and live: "socketId q \<notin> D"
      then have "q \<in> set (players rm) \<or> socketId q = sid"
        by auto
      then show "(rid, socketId q) \<in> set (joined ?st')"
      proof
        assume "q \<in> set (players rm)"
        from listed_joinedD [OF assms entry this live] show ?thesis
          by (simp add: joined' set_socket_join)
      next
        assume "socketId q = sid"
        then show ?thesis
          by (simp add: joined' set_socket_join)
      qed
    qed
  qed
qed

lemma stamp_cases:
  "fst (on_move E now sid rid m st) = st
   \<or> (\<exists>rm. map_of (rooms st) rid = Some rm
         \<and> rooms (fst (on_move E now sid rid m st))
             = AList.update rid (rm\<lparr>lastActivity := now\<rparr>) (rooms st)
         \<and> joined (fst (on_move E now sid rid m st)) = joined st)"
  "fst (on_gameReset E now rid st) = st
   \<or> (\<exists>rm. map_of (rooms st) rid = Some rm
         \<and> rooms (fst (on_gameReset E now rid st))
             = AList.update rid (rm\<lparr>lastActivity := now\<rparr>) (rooms st)
         \<and> joined (fst (on_gameReset E now rid st)) = joined st)"
  by (auto simp: on_move_def accept_move_def on_gameReset_def Let_def
      split: option.splits applied.splits)

lemma listed_stamp:
  assumes inv: "listed_joined D st"
    and room: "map_of (rooms st) rid = Some rm"
    and rooms': "rooms st' = AList.update rid (rm\<lparr>lastActivity := now\<rparr>) (rooms st)"
    and joined': "joined st' = joined st"
  shows "listed_joined D st'"
proof (rule listed_update [OF inv rooms'])
  show "set (joined st) \<subseteq> set (joined st')"
    by (simp add: joined')
next
  fix q
  assume "q \<in> set (players (rm\<lparr>lastActivity := now\<rparr>))" and live: "socketId q \<notin> D"
  then have q: "q \<in> set (players rm)"
    by simp
  from room have "(rid, rm) \<in> set (rooms st)"
    by (rule map_of_SomeD)
  from listed_joinedD [OF inv this q live] show "(rid, socketId q) \<in> set (joined st')"
    by (simp add: joined')
qed

lemma listed_move:
  assumes "listed_joined D st"
  shows "listed_joined D (fst (on_move E now sid rid m st))"
  using stamp_cases(1) [of E now sid rid m st] assms
  by (auto intro: listed_stamp)

lemma listed_gameReset:
  assumes "listed_joined D st"
  shows "listed_joined D (fst (on_gameReset E now rid st))"
  using stamp_cases(2) [of E now rid st] assms
  by (auto intro: listed_stamp)


lemma listed_cleanupRoom:
  assumes "listed_joined D st"
  shows "listed_joined D (cleanupRoom rid st)"
proof (cases "cleanupRoom rid st = st")
  case True
  with assms show ?thesis by simp
next
  case False
  then have "rooms (cleanupRoom rid st) = AList.delete rid (rooms st)"
    and "joined (cleanupRoom rid st) = joined st"
    by (auto simp: cleanupRoom_def split: option.splits if_splits)
  with assms show ?thesis
    by (rule listed_delete)
qed

lemma set_without: "set (take i xs @ drop (Suc i) xs) \<subseteq> set xs"
  by (auto dest: in_set_takeD in_set_dropD)

lemma listed_leave:
  assumes "listed_joined D st"
  shows "listed_joined (insert sid D) (st\<lparr>joined := filter (\<lambda>(r, s). s \<noteq> sid) (joined st)\<rparr>)"
proof -
  have "(r, socketId q) \<in> set (filter (\<lambda>(r, s). s \<noteq> sid) (joined st))"
    if "(r, rm) \<in> set (rooms st)" and "q \<in> set (players rm)"
      and "socketId q \<noteq> sid" and "socketId q \<notin> D" for r rm q
    using listed_joinedD [OF assms that(1,2,4)] that(3) by simp
  then show ?thesis
    unfolding listed_joined_def by auto
qed

lemma listed_disconnect:
  assumes "listed_joined D st"
  shows "listed_joined (insert sid D) (fst (on_disconnect now sid st))"
proof -
  let ?st = "st\<lparr>joined := filter (\<lambda>(r, s). s \<noteq> sid) (joined st)\<rparr>"
  have left: "listed_joined (insert sid D) ?st"
    using assms by (rule listed_leave)
  show ?thesis
  proof (cases "first_room_of sid (rooms st)")
    case None
    with left show ?thesis
      by (simp add: on_disconnect_def)
  next
    case (Some found)
    obtain rid rm i where found: "found = (rid, rm, i)"
      by (cases found)
    have entry: "(rid, rm) \<in> set (rooms ?st)"
      using Some found by (auto dest: first_room_of_Some)
    let ?rm = "rm\<lparr>players := take i (players rm) @ drop (Suc i) (players rm),
                    lastActivity := now\<rparr>"
    let ?st1 = "?st\<lparr>rooms := AList.update rid ?rm (rooms ?st)\<rparr>"
    have "listed_joined (insert sid D) ?st1"
    proof (rule listed_update [OF left])
      show "rooms ?st1 = AList.update rid ?rm (rooms ?st)"
        by simp
      show "set (joined ?st) \<subseteq> set (joined ?st1)"
        by simp
    next
      fix q
      assume "q \<in> set (players ?rm)" and live: "socketId q \<notin> insert sid D"
      with set_without [of i "players rm"] have q: "q \<in> set (players rm)"
        by auto
      from listed_joinedD [OF left entry q live] show "(rid, socketId q) \<in> set (joined ?st1)"
        by simp
    qed
    then have "listed_joined (insert sid D) (cleanupRoom rid ?st1)"
      by (rule listed_cleanupRoom)
    then show ?thesis
      using Some by (simp add: on_disconnect_def found Let_def)
  qed
qed

lemma listed_sweep:
  "listed_joined D s \<Longrightarrow>
   listed_joined D
     (fold (\<lambda>(rid, rm) s.
              if now - lastActivity rm > maxInactiveTime
              then s\<lparr>rooms := AList.delete rid (rooms s), games := AList.delete rid (games s)\<rparr>
              else s) xs s)"
proof (induction xs arbitrary: s)
  case Nil
  then show ?case by simp
next
  case (Cons x xs)
  obtain rid rm where x: "x = (rid, rm)"
    by (cases x)
  have "listed_joined D
          (s\<lparr>rooms := AList.delete rid (rooms s), games := AList.delete rid (games s)\<rparr>)"
    by (rule listed_delete [OF Cons.prems]) simp_all
  with Cons show ?case
    by (simp add: x)
qed

lemma listed_mono: "listed_joined D st \<Longrightarrow> D \<subseteq> D' \<Longrightarrow> listed_joined D' st"
  unfolding listed_joined_def by blast

lemma listed_handle:
  assumes "listed_joined D st"
  shows "listed_joined (D \<union> set (departed [ev])) (fst (handle E ev st))"
proof (cases ev)
  case (Username sid u)
  with assms show ?thesis
    by (simp add: listed_joined_def on_username_def)
next
  case (Disconnect now sid)
  with assms show ?thesis
    by (simp add: listed_disconnect)
next
  case (Sweep now)
  with assms show ?thesis
    by (simp add: sweep_inactive_def listed_sweep)
qed (simp_all add: assms listed_createRoom listed_joinRoom listed_move listed_gameReset)

lemma departed_Cons: "set (departed (ev # evs)) = set (departed [ev]) \<union> set (departed evs)"
  by (cases ev) auto

lemma listed_run:
  "listed_joined D st \<Longrightarrow> listed_joined (D \<union> set (departed evs)) (run E evs st)"
proof (induction evs arbitrary: D st)
  case Nil
  then show ?case by simp
next
  case (Cons ev evs)
  from Cons.prems have "listed_joined (D \<union> set (departed [ev])) (fst (handle E ev st))"
    by (rule listed_handle)
  then have "listed_joined (D \<union> set (departed [ev]) \<union> set (departed evs))
               (run E evs (fst (handle E ev st)))"
    by (rule Cons.IH)
  then show ?case
    by (simp add: departed_Cons [of ev evs] Un_assoc)
qed

lemma connected_players_joined:
  assumes "st = run E evs init_state" and "map_of (rooms st) rid = Some rm"
    and "q \<in> set (players rm)" and "socketId q \<notin> set (departed evs)"
  shows "(rid, socketId q) \<in> set (joined st)"
proof -
  have "listed_joined ({} \<union> set (departed evs)) (run E evs init_state)"
    by (rule listed_run) (rule listed_init)
  then have inv: "listed_joined (set (departed evs)) st"
    by (simp add: assms(1))
  from assms(2) have "(rid, rm) \<in> set (rooms st)"
    by (rule map_of_SomeD)
  from listed_joinedD [OF inv this assms(3,4)] show ?thesis .
qed

text \<open>
  So in every state the server reaches, each player of the room whose connection has not
  disconnected receives the game update of an accepted move, and the relayed move unless
  it is the submitter.
\<close>

lemma connected_players_receive:
  assumes "st = run E evs init_state"
    and "map_of (rooms st) rid = Some rm" and "map_of (games st) rid = Some g"
    and "find (\<lambda>p. socketId p = sid) (players rm) = Some p"
    and "color p = color_of_turn (chess_turn E (chess g))"
    and "chess_move E (chess g) m = Moved r b"
    and "on_move E now sid rid m st = (st', out)"
    and "q \<in> set (players rm)" and "socketId q \<notin> set (departed evs)"
  shows "(socketId q \<noteq> sid \<longrightarrow> socketId q \<in> set (recipients (joined st') (To_others rid sid)))
       \<and> socketId q \<in> set (recipients (joined st') (To_room rid))"
proof -
  have "(rid, socketId q) \<in> set (joined st)"
    using assms(1,2,8,9) by (rule connected_players_joined)
  moreover from accepted_move_emissions [OF assms(2-7)]
  have same: "joined st' = joined st"
    and each: "\<forall>q \<in> set (players rm). (rid, socketId q) \<in> set (joined st') \<longrightarrow>
             (socketId q \<noteq> sid \<longrightarrow>
                socketId q \<in> set (recipients (joined st') (To_others rid sid)))
           \<and> socketId q \<in> set (recipients (joined st') (To_room rid))"
    by blast+
  ultimately have "(rid, socketId q) \<in> set (joined st')"
    by simp
  with each assms(8) show ?thesis
    by blast
qed


end
